theory Spec2Isabelle
  imports Complex_Main "HOL-Library.AList"
begin

section \<open>Python values\<close>

text \<open>
  The SDK is dynamically typed: a decoded JSON document is a tree of Python values, and
  every place that tests a value with \<open>if x\<close>, \<open>x or y\<close> or \<open>not x\<close> uses Python's truth
  test. Floats are modelled as exact real numbers (rounding, infinities and NaN are
  outside the model). A \<open>dict\<close> is an association list in insertion order; a well-formed
  one has pairwise distinct keys. Strings are ASCII.
\<close>

datatype json =
    JNull
  | JBool bool
  | JInt int
  | JFloat real
  | JStr string
  | JList "json list"
  | JDict "(string \<times> json) list"

text \<open>Python's truth test: \<open>None\<close>, \<open>False\<close>, zero and empty containers are false.\<close>

fun truthy :: "json \<Rightarrow> bool" where
  "truthy JNull = False"
| "truthy (JBool b) = b"
| "truthy (JInt n) = (n \<noteq> 0)"
| "truthy (JFloat r) = (r \<noteq> 0)"
| "truthy (JStr s) = (s \<noteq> [])"
| "truthy (JList xs) = (xs \<noteq> [])"
| "truthy (JDict kvs) = (kvs \<noteq> [])"

text \<open>\<open>a or b\<close>: the first operand when it is true, the second otherwise.\<close>

definition py_or :: "json \<Rightarrow> json \<Rightarrow> json" where
  "py_or a b = (if truthy a then a else b)"

text \<open>\<open>d.get(k)\<close>: the value stored under \<open>k\<close>, \<open>None\<close> when the key is missing.\<close>

definition dict_get :: "(string \<times> json) list \<Rightarrow> string \<Rightarrow> json" where
  "dict_get d k = (case map_of d k of Some v \<Rightarrow> v | None \<Rightarrow> JNull)"

text \<open>\<open>a or b\<close> on \<open>Optional[str]\<close>: \<open>None\<close> and the empty string are false.\<close>

definition str_truthy :: "string option \<Rightarrow> bool" where
  "str_truthy a = (case a of None \<Rightarrow> False | Some s \<Rightarrow> s \<noteq> [])"

definition str_or :: "string option \<Rightarrow> string option \<Rightarrow> string option" where
  "str_or a b = (if str_truthy a then a else b)"

text \<open>\<open>str(n)\<close> for an \<open>int\<close>, as an f-string formats it: decimal digits, a minus sign first
  for a negative number.\<close>

definition digit_chr :: "nat \<Rightarrow> char" where
  "digit_chr d = ''0123456789'' ! d"

fun nat_digits :: "nat \<Rightarrow> string" where
  "nat_digits n = (if n < 10 then [digit_chr n] else nat_digits (n div 10) @ [digit_chr (n mod 10)])"

declare nat_digits.simps [simp del]

definition str_int :: "int \<Rightarrow> string" where
  "str_int i = (if i < 0 then CHR ''-'' # nat_digits (nat (- i)) else nat_digits (nat i))"

subsection \<open>Character classes of the regular expressions\<close>



definition digit_chars :: string where
  "digit_chars = ''0123456789''"



definition is_digit :: "char \<Rightarrow> bool" where
  "is_digit c = (c \<in> set digit_chars)"


subsection \<open>\<open>int(s)\<close> on a string\<close>

text \<open>
  The built-in \<open>int\<close> applied to a \<open>str\<close>: surrounding whitespace is dropped, one sign is
  allowed, and the rest is a non-empty run of decimal digits in which single underscores
  may separate digits. Anything else raises \<open>ValueError\<close>, here \<open>None\<close>.
\<close>

definition is_space :: "char \<Rightarrow> bool" where
  "is_space c = (c \<in> set [CHR '' '', CHR 0x09, CHR 0x0A, CHR 0x0B, CHR 0x0C, CHR 0x0D])"

definition strip :: "string \<Rightarrow> string" where
  "strip s = rev (dropWhile is_space (rev (dropWhile is_space s)))"

definition digit_val :: "char \<Rightarrow> nat" where
  "digit_val c = (case map_of (zip digit_chars [0 ..< 10]) c of Some d \<Rightarrow> d | None \<Rightarrow> 0)"

fun parse_digits :: "string \<Rightarrow> nat \<Rightarrow> nat option" where
  "parse_digits [] acc = Some acc"
| "parse_digits (c # cs) acc =
     (if is_digit c then parse_digits cs (10 * acc + digit_val c)
      else if c = CHR ''_'' then
        (case cs of
           [] \<Rightarrow> None
         | d # ds \<Rightarrow> if is_digit d then parse_digits cs acc else None)
      else None)"

definition parse_unsigned :: "string \<Rightarrow> nat option" where
  "parse_unsigned s =
     (case s of
        [] \<Rightarrow> None
      | c # cs \<Rightarrow> if is_digit c then parse_digits s 0 else None)"

definition py_int :: "string \<Rightarrow> int option" where
  "py_int s =
     (case strip s of
        [] \<Rightarrow> None
      | c # cs \<Rightarrow>
          if c = CHR ''-'' then map_option (\<lambda>n. - int n) (parse_unsigned cs)
          else if c = CHR ''+'' then map_option int (parse_unsigned cs)
          else map_option int (parse_unsigned (c # cs)))"

section \<open>The exception hierarchy (\<open>_exceptions.py\<close>)\<close>

text \<open>
  Every SDK error is an instance of \<open>PropheseerError\<close> or of one of its subclasses. An
  instance is a record of its class and attributes; the constructor of each class is a
  function building that record, with the constants and defaults of its \<open>__init__\<close>.
  Attributes a class does not set are \<open>None\<close>.
\<close>

datatype error_class =
    C_PropheseerError
  | C_AuthenticationError
  | C_InsufficientCreditsError
  | C_PermissionDeniedError
  | C_NotFoundError
  | C_RateLimitError
  | C_InternalServerError
  | C_APIConnectionError

datatype transport_exn = TimeoutException | HTTPError string

record propheseer_error =
  cls :: error_class
  message :: json
  status :: "int option"
  code :: json
  headers :: "(string \<times> string) list option"
  balance_cents :: json
  required_cents :: json
  required_plan :: json
  retry_after :: json
  cause :: "transport_exn option"

definition PropheseerError ::
  "json \<Rightarrow> int option \<Rightarrow> json \<Rightarrow> (string \<times> string) list option \<Rightarrow> propheseer_error" where
  "PropheseerError msg st cd hs =
     \<lparr>cls = C_PropheseerError, message = msg, status = st, code = cd, headers = hs,
      balance_cents = JNull, required_cents = JNull, required_plan = JNull,
      retry_after = JNull, cause = None\<rparr>"

definition AuthenticationError ::
  "json \<Rightarrow> (string \<times> string) list option \<Rightarrow> propheseer_error" where
  "AuthenticationError msg hs =
     (PropheseerError msg (Some 401) (JStr ''UNAUTHORIZED'') hs)\<lparr>cls := C_AuthenticationError\<rparr>"

definition InsufficientCreditsError ::
  "json \<Rightarrow> json \<Rightarrow> json \<Rightarrow> (string \<times> string) list option \<Rightarrow> propheseer_error" where
  "InsufficientCreditsError msg bal req hs =
     (PropheseerError msg (Some 402) (JStr ''INSUFFICIENT_CREDITS'') hs)
       \<lparr>cls := C_InsufficientCreditsError, balance_cents := bal, required_cents := req\<rparr>"

definition PermissionDeniedError ::
  "json \<Rightarrow> json \<Rightarrow> json \<Rightarrow> (string \<times> string) list option \<Rightarrow> propheseer_error" where
  "PermissionDeniedError msg cd plan hs =
     (PropheseerError msg (Some 403) (py_or cd (JStr ''FORBIDDEN'')) hs)
       \<lparr>cls := C_PermissionDeniedError, required_plan := plan\<rparr>"

definition NotFoundError ::
  "json \<Rightarrow> (string \<times> string) list option \<Rightarrow> propheseer_error" where
  "NotFoundError msg hs =
     (PropheseerError msg (Some 404) (JStr ''NOT_FOUND'') hs)\<lparr>cls := C_NotFoundError\<rparr>"

definition RateLimitError ::
  "json \<Rightarrow> json \<Rightarrow> (string \<times> string) list option \<Rightarrow> propheseer_error" where
  "RateLimitError msg ra hs =
     (PropheseerError msg (Some 429) (JStr ''RATE_LIMITED'') hs)
       \<lparr>cls := C_RateLimitError, retry_after := ra\<rparr>"

text \<open>\<open>status or 500\<close>: a missing or zero status becomes 500.\<close>

definition InternalServerError ::
  "json \<Rightarrow> int option \<Rightarrow> (string \<times> string) list option \<Rightarrow> propheseer_error" where
  "InternalServerError msg st hs =
     (PropheseerError msg
        (case st of None \<Rightarrow> Some 500 | Some s \<Rightarrow> if s \<noteq> 0 then Some s else Some 500)
        (JStr ''INTERNAL_ERROR'') hs)\<lparr>cls := C_InternalServerError\<rparr>"

definition APIConnectionError :: "json \<Rightarrow> transport_exn option \<Rightarrow> propheseer_error" where
  "APIConnectionError msg c =
     (PropheseerError msg None JNull None)\<lparr>cls := C_APIConnectionError, cause := c\<rparr>"

text \<open>
  What a Python call can raise in this model: an SDK error, one of the built-in
  exceptions the modelled code meets, or one of the two exit signals that derive from
  \<open>BaseException\<close> but not from \<open>Exception\<close>.
\<close>

datatype exn =
    PropheseerExn propheseer_error
  | ValueError
  | TypeError
  | AttributeError
  | JSONDecodeError
  | OtherException string
  | SystemExit
  | KeyboardInterrupt

text \<open>\<open>isinstance(e, Exception)\<close>: what an \<open>except Exception\<close> clause catches.\<close>

fun is_Exception :: "exn \<Rightarrow> bool" where
  "is_Exception SystemExit = False"
| "is_Exception KeyboardInterrupt = False"
| "is_Exception e = True"

section \<open>Error mapping and retry policy (\<open>_base_client.py\<close>)\<close>

definition is_retryable :: "int \<Rightarrow> bool" where
  "is_retryable status_code = (status_code = 429 \<or> status_code \<ge> 500)"

text \<open>
  \<open>_map_status_to_error(status_code, body, headers)\<close>. \<open>body\<close> is a \<open>dict\<close>;
  \<open>headers\<close> is the response's header collection, given by its \<open>items()\<close>, and
  \<open>dict(headers.items())\<close> is the snapshot every error carries.
\<close>

definition map_status_to_error ::
  "int \<Rightarrow> (string \<times> json) list \<Rightarrow> (string \<times> string) list \<Rightarrow> propheseer_error" where
  "map_status_to_error status_code body hdrs =
     (let msg = py_or (dict_get body ''error'')
                  (py_or (dict_get body ''message'')
                     (JStr (''API error: '' @ str_int status_code)));
          header_dict = Some hdrs
      in
        if status_code = 401 then AuthenticationError msg header_dict
        else if status_code = 402 then
          InsufficientCreditsError msg (dict_get body ''balanceCents'')
            (dict_get body ''requiredCents'') header_dict
        else if status_code = 403 then
          PermissionDeniedError msg (dict_get body ''code'')
            (dict_get body ''requiredPlan'') header_dict
        else if status_code = 404 then NotFoundError msg header_dict
        else if status_code = 429 then
          RateLimitError msg (dict_get body ''retryAfter'') header_dict
        else if status_code \<ge> 500 then
          InternalServerError msg (Some status_code) header_dict
        else PropheseerError msg (Some status_code) (dict_get body ''code'') header_dict)"

text \<open>
  \<open>float(x)\<close> for a decoded JSON value \<open>x\<close>. For a string the interpreter's float parser
  decides; it is the parameter \<open>float_str\<close> (\<open>None\<close>: the string is no float literal).
\<close>

fun py_float :: "(string \<Rightarrow> real option) \<Rightarrow> json \<Rightarrow> exn + real" where
  "py_float float_str JNull = Inl TypeError"
| "py_float float_str (JBool b) = Inr (if b then 1 else 0)"
| "py_float float_str (JInt n) = Inr (real_of_int n)"
| "py_float float_str (JFloat r) = Inr r"
| "py_float float_str (JStr s) = (case float_str s of None \<Rightarrow> Inl ValueError | Some r \<Rightarrow> Inr r)"
| "py_float float_str (JList xs) = Inl TypeError"
| "py_float float_str (JDict kvs) = Inl TypeError"

text \<open>\<open>2 ** e\<close> for an \<open>int\<close> exponent: an \<open>int\<close> for \<open>e \<ge> 0\<close>, a float below.\<close>

definition pow2 :: "int \<Rightarrow> real" where
  "pow2 e = (if 0 \<le> e then 2 ^ nat e else 1 / 2 ^ nat (- e))"

text \<open>
  \<open>_get_retry_delay(attempt, last_error)\<close>. \<open>u\<close> is the value \<open>random.random()\<close>
  returns when it is called, a number in \<open>[0, 1)\<close>.
\<close>

definition backoff_delay :: "int \<Rightarrow> real \<Rightarrow> real" where
  "backoff_delay attempt u =
     (let base_delay = 0.5 * pow2 (attempt - 1);
          jitter = u * base_delay * 0.5
      in base_delay + jitter)"

definition get_retry_delay ::
  "(string \<Rightarrow> real option) \<Rightarrow> int \<Rightarrow> propheseer_error option \<Rightarrow> real \<Rightarrow> exn + real" where
  "get_retry_delay float_str attempt last_error u =
     (case last_error of
        None \<Rightarrow> Inr (backoff_delay attempt u)
      | Some e \<Rightarrow>
          if cls e = C_RateLimitError \<and> truthy (retry_after e)
          then py_float float_str (retry_after e)
          else Inr (backoff_delay attempt u))"

section \<open>Rate-limit headers (\<open>_response.py\<close>)\<close>

record rate_limit_info =
  plan :: string
  billing_type :: string
  limit_day :: "int option"
  remaining_day :: "int option"
  limit_minute :: "int option"
  remaining_minute :: "int option"
  credit_balance_cents :: "int option"
  credit_balance :: "string option"
  request_cost_cents :: "int option"
  request_cost :: "string option"

text \<open>
  A header collection is given by its items, names in lower case; \<open>headers.get(name)\<close>
  is the lookup, \<open>None\<close> for a header the response does not have.
\<close>

definition headers_get :: "(string \<times> string) list \<Rightarrow> string \<Rightarrow> string option" where
  "headers_get hdrs name = map_of hdrs name"

text \<open>\<open>RateLimitInfo(plan=plan, billing_type=billing_type)\<close>: the other fields default to \<open>None\<close>.\<close>

definition RateLimitInfo :: "string \<Rightarrow> string \<Rightarrow> rate_limit_info" where
  "RateLimitInfo p b =
     \<lparr>plan = p, billing_type = b, limit_day = None, remaining_day = None,
      limit_minute = None, remaining_minute = None, credit_balance_cents = None,
      credit_balance = None, request_cost_cents = None, request_cost = None\<rparr>"

text \<open>
  \<open>if h is not None: info.field = int(h)\<close>, for one numeric header: the field stays as it
  is when the header is missing, and \<open>int\<close> raises \<open>ValueError\<close> on a malformed value.
\<close>

definition set_int_field ::
  "string option \<Rightarrow> (int option \<Rightarrow> rate_limit_info \<Rightarrow> rate_limit_info) \<Rightarrow> rate_limit_info
     \<Rightarrow> exn + rate_limit_info" where
  "set_int_field h upd info =
     (case h of
        None \<Rightarrow> Inr info
      | Some v \<Rightarrow> (case py_int v of None \<Rightarrow> Inl ValueError | Some n \<Rightarrow> Inr (upd (Some n) info)))"

definition set_str_field ::
  "string option \<Rightarrow> (string option \<Rightarrow> rate_limit_info \<Rightarrow> rate_limit_info) \<Rightarrow> rate_limit_info
     \<Rightarrow> rate_limit_info" where
  "set_str_field h upd info = (case h of None \<Rightarrow> info | Some v \<Rightarrow> upd (Some v) info)"

text \<open>Sequencing of statements that may raise: the first exception ends the function.\<close>

definition bind_exn :: "exn + 'a \<Rightarrow> ('a \<Rightarrow> exn + 'b) \<Rightarrow> exn + 'b" where
  "bind_exn r f = (case r of Inl e \<Rightarrow> Inl e | Inr x \<Rightarrow> f x)"

definition parse_rate_limit_headers ::
  "(string \<times> string) list \<Rightarrow> exn + rate_limit_info option" where
  "parse_rate_limit_headers hdrs =
     (let plan_h = headers_get hdrs ''x-ratelimit-plan'' in
      if \<not> str_truthy plan_h then Inr None
      else
        (let billing = (case headers_get hdrs ''x-billing-type'' of
                          None \<Rightarrow> ''subscription'' | Some b \<Rightarrow> b);
             info = RateLimitInfo (case plan_h of Some p \<Rightarrow> p | None \<Rightarrow> []) billing
         in
           if billing = ''credits'' then
             bind_exn (set_int_field (headers_get hdrs ''x-credit-balance-cents'')
                         (\<lambda>v i. i\<lparr>credit_balance_cents := v\<rparr>) info) (\<lambda>i1.
             bind_exn (Inr (set_str_field (headers_get hdrs ''x-credit-balance'')
                         (\<lambda>v i. i\<lparr>credit_balance := v\<rparr>) i1)) (\<lambda>i2.
             bind_exn (set_int_field (headers_get hdrs ''x-request-cost-cents'')
                         (\<lambda>v i. i\<lparr>request_cost_cents := v\<rparr>) i2) (\<lambda>i3.
             Inr (Some (set_str_field (headers_get hdrs ''x-request-cost'')
                         (\<lambda>v i. i\<lparr>request_cost := v\<rparr>) i3)))))
           else
             bind_exn (set_int_field (headers_get hdrs ''x-ratelimit-limit-day'')
                         (\<lambda>v i. i\<lparr>limit_day := v\<rparr>) info) (\<lambda>i1.
             bind_exn (set_int_field (headers_get hdrs ''x-ratelimit-remaining-day'')
                         (\<lambda>v i. i\<lparr>remaining_day := v\<rparr>) i1) (\<lambda>i2.
             bind_exn (set_int_field (headers_get hdrs ''x-ratelimit-limit-minute'')
                         (\<lambda>v i. i\<lparr>limit_minute := v\<rparr>) i2) (\<lambda>i3.
             bind_exn (set_int_field (headers_get hdrs ''x-ratelimit-remaining-minute'')
                         (\<lambda>v i. i\<lparr>remaining_minute := v\<rparr>) i3) (\<lambda>i4.
             Inr (Some i4)))))))"

section \<open>The request pipeline (\<open>BaseSyncClient._request\<close>)\<close>

record response =
  status_code :: int
  json_body :: "json option"
  resp_headers :: "(string \<times> string) list"

text \<open>\<open>response.is_success\<close>: a status from 200 to 299.\<close>

definition is_success :: "response \<Rightarrow> bool" where
  "is_success r = (200 \<le> status_code r \<and> status_code r \<le> 299)"

text \<open>
  What one call of \<open>self._client.request(...)\<close> does: it returns a response, raises
  \<open>httpx.TimeoutException\<close>, raises another \<open>httpx.HTTPError\<close> (with its text), or raises
  something else.
\<close>

datatype transport_result =
    Responds response
  | RaisesTimeout
  | RaisesHTTPError string
  | RaisesOther exn

text \<open>
  The world a request runs in: the outcome of the \<open>k\<close>-th network call, the value
  \<open>random.random()\<close> gives during attempt \<open>k\<close>, the interpreter's float parser, and its
  formatting of the timeout in a message.
\<close>

record env =
  transport :: "nat \<Rightarrow> transport_result"
  random :: "int \<Rightarrow> real"
  float_str :: "string \<Rightarrow> real option"
  timeout_repr :: string

record client =
  api_key :: "string option"
  base_url :: string
  max_retries :: int

definition DEFAULT_BASE_URL :: string where
  "DEFAULT_BASE_URL = ''https://api.propheseer.com''"

definition DEFAULT_MAX_RETRIES :: int where
  "DEFAULT_MAX_RETRIES = 2"

definition rstrip_slash :: "string \<Rightarrow> string" where
  "rstrip_slash s = rev (dropWhile (\<lambda>c. c = CHR ''/'') (rev s))"

text \<open>
  \<open>BaseSyncClient.__init__\<close>: \<open>env_key\<close> is \<open>os.environ.get("PROPHESEER_API_KEY")\<close>.
\<close>

definition init_client ::
  "string option \<Rightarrow> string option \<Rightarrow> string option \<Rightarrow> int option \<Rightarrow> client" where
  "init_client key env_key url retries =
     \<lparr>api_key = str_or key env_key,
      base_url = rstrip_slash (case str_or url (Some DEFAULT_BASE_URL) of
                                 Some u \<Rightarrow> u | None \<Rightarrow> DEFAULT_BASE_URL),
      max_retries = (case retries of None \<Rightarrow> DEFAULT_MAX_RETRIES | Some n \<Rightarrow> n)\<rparr>"

text \<open>
  The outcome of \<open>_request\<close>: what it returns or raises, how many network calls it
  issued, and the delays it slept, in order.
\<close>

record request_outcome =
  result :: "exn + (json \<times> rate_limit_info option \<times> response)"
  calls :: nat
  sleeps :: "real list"

text \<open>
  \<open>time.sleep(delay)\<close> raises \<open>ValueError\<close> for a negative delay. The delay is computed
  and slept before the \<open>try\<close> block, so what it raises leaves \<open>_request\<close>.
\<close>

definition sleep_before ::
  "env \<Rightarrow> int \<Rightarrow> propheseer_error option \<Rightarrow> exn + real option" where
  "sleep_before w attempt last_error =
     (if attempt > 0 then
        (case get_retry_delay (float_str w) attempt last_error (random w attempt) of
           Inl e \<Rightarrow> Inl e
         | Inr d \<Rightarrow> if d < 0 then Inl ValueError else Inr (Some d))
      else Inr None)"

text \<open>
  The body of \<open>for attempt in range(self.max_retries + 1)\<close>, over the attempts still to
  run; \<open>n\<close> counts the network calls made so far and \<open>sl\<close> the delays slept. The
  statement after the loop is the empty case.
\<close>

fun attempts ::
  "env \<Rightarrow> client \<Rightarrow> int list \<Rightarrow> propheseer_error option \<Rightarrow> nat \<Rightarrow> real list \<Rightarrow> request_outcome" where
  "attempts w c [] last_error n sl =
     \<lparr>result = Inl (PropheseerExn
         (case last_error of
            Some e \<Rightarrow> e
          | None \<Rightarrow> PropheseerError (JStr ''Request failed after retries'') None JNull None)),
      calls = n, sleeps = sl\<rparr>"
| "attempts w c (attempt # rest) last_error n sl =
     (case sleep_before w attempt last_error of
        Inl e \<Rightarrow> \<lparr>result = Inl e, calls = n, sleeps = sl\<rparr>
      | Inr slept \<Rightarrow>
          (let sl' = (case slept of None \<Rightarrow> sl | Some d \<Rightarrow> sl @ [d]) in
           case transport w n of
             Responds r \<Rightarrow>
               if is_success r then
                 (case json_body r of
                    None \<Rightarrow> \<lparr>result = Inl JSONDecodeError, calls = Suc n, sleeps = sl'\<rparr>
                  | Some d \<Rightarrow>
                      (case parse_rate_limit_headers (resp_headers r) of
                         Inl e \<Rightarrow> \<lparr>result = Inl e, calls = Suc n, sleeps = sl'\<rparr>
                       | Inr rate_limit \<Rightarrow>
                           \<lparr>result = Inr (d, rate_limit, r), calls = Suc n, sleeps = sl'\<rparr>))
               else
                 (case (case json_body r of None \<Rightarrow> Some [] | Some (JDict kvs) \<Rightarrow> Some kvs
                        | Some _ \<Rightarrow> None) of
                    None \<Rightarrow> \<lparr>result = Inl AttributeError, calls = Suc n, sleeps = sl'\<rparr>
                  | Some error_body \<Rightarrow>
                      (let error = map_status_to_error (status_code r) error_body (resp_headers r) in
                       if is_retryable (status_code r) \<and> attempt < max_retries c
                       then attempts w c rest (Some error) (Suc n) sl'
                       else \<lparr>result = Inl (PropheseerExn error), calls = Suc n, sleeps = sl'\<rparr>))
           | RaisesTimeout \<Rightarrow>
               (let timeout_error = APIConnectionError
                      (JStr (''Request timed out after '' @ timeout_repr w @ ''s''))
                      (Some TimeoutException) in
                if attempt < max_retries c
                then attempts w c rest (Some timeout_error) (Suc n) sl'
                else \<lparr>result = Inl (PropheseerExn timeout_error), calls = Suc n, sleeps = sl'\<rparr>)
           | RaisesHTTPError txt \<Rightarrow>
               (let conn_error = APIConnectionError
                      (JStr (''Connection error: '' @ txt)) (Some (HTTPError txt)) in
                if attempt < max_retries c
                then attempts w c rest (Some conn_error) (Suc n) sl'
                else \<lparr>result = Inl (PropheseerExn conn_error), calls = Suc n, sleeps = sl'\<rparr>)
           | RaisesOther e \<Rightarrow> \<lparr>result = Inl e, calls = Suc n, sleeps = sl'\<rparr>))"

text \<open>\<open>range(k)\<close>: the integers from 0 below \<open>k\<close>, none when \<open>k \<le> 0\<close>.\<close>

definition py_range :: "int \<Rightarrow> int list" where
  "py_range k = map int [0 ..< nat k]"

text \<open>
  \<open>_request(method, path, query=..., body=..., auth=...)\<close>. The URL and the request
  headers are assembled before the loop and do not change what the loop does with an
  outcome, so the model keeps of a request only its \<open>auth\<close> flag.
\<close>

definition request :: "env \<Rightarrow> client \<Rightarrow> bool \<Rightarrow> request_outcome" where
  "request w c auth =
     (if auth \<and> \<not> str_truthy (api_key c) then
        \<lparr>result = Inl (PropheseerExn (AuthenticationError
           (JStr (''API key is required. Pass it to the constructor ''
                  @ ''or set the PROPHESEER_API_KEY environment variable.'')) None)),
         calls = 0, sleeps = []\<rparr>
      else attempts w c (py_range (max_retries c + 1)) None 0 [])"

section \<open>Pagination (\<open>_pagination.py\<close>, \<open>resources/markets.py\<close>)\<close>

record pagination_meta =
  total :: int
  limit :: int
  offset :: int
  sources :: json

record 'a sync_page =
  data :: "'a list"
  meta :: pagination_meta
  rate_limit :: "rate_limit_info option"

definition has_more :: "'a sync_page \<Rightarrow> bool" where
  "has_more page = (offset (meta page) + limit (meta page) < total (meta page))"

definition next_offset :: "'a sync_page \<Rightarrow> int option" where
  "next_offset page =
     (if \<not> has_more page then None else Some (offset (meta page) + limit (meta page)))"

text \<open>\<open>if max_items and yielded >= max_items\<close>: \<open>None\<close> and 0 are false.\<close>

definition cap_reached :: "int option \<Rightarrow> int \<Rightarrow> bool" where
  "cap_reached max_items yielded =
     (case max_items of None \<Rightarrow> False | Some m \<Rightarrow> m \<noteq> 0 \<and> yielded \<ge> m)"

text \<open>
  The inner loop \<open>for item in page.data\<close>: the items it yields, the counter after it, and
  whether it left the generator through \<open>return\<close>.
\<close>

fun yield_items :: "int option \<Rightarrow> int \<Rightarrow> 'a list \<Rightarrow> 'a list \<times> int \<times> bool" where
  "yield_items max_items yielded [] = ([], yielded, False)"
| "yield_items max_items yielded (item # rest) =
     (if cap_reached max_items (yielded + 1) then ([item], yielded + 1, True)
      else (case yield_items max_items (yielded + 1) rest of
              (out, y, returned) \<Rightarrow> (item # out, y, returned)))"

text \<open>
  A run of the generator, driven to its end: the items yielded in order, the
  \<open>(limit, offset)\<close> of every \<open>self.list\<close> call in order, and the exception that ended it,
  if one did.
\<close>

record 'a pagination_run =
  items :: "'a list"
  requests :: "(int \<times> int option) list"
  raised :: "exn option"

text \<open>
  The \<open>while True\<close> loop. The list operation is given by what its successive calls
  return or raise: the first element answers the next call. With no answer left the run
  is undetermined (\<open>None\<close>): the driver is about to issue a call the script does not cover.
\<close>

fun paginate ::
  "(exn + 'a sync_page) list \<Rightarrow> int \<Rightarrow> int option \<Rightarrow> int option \<Rightarrow> int
     \<Rightarrow> 'a pagination_run option" where
  "paginate [] page_limit max_items off yielded = None"
| "paginate (answer # later) page_limit max_items off yielded =
     (case answer of
        Inl e \<Rightarrow> Some \<lparr>items = [], requests = [(page_limit, off)], raised = Some e\<rparr>
      | Inr page \<Rightarrow>
          (case yield_items max_items yielded (data page) of
             (out, yielded', returned) \<Rightarrow>
               if returned then
                 Some \<lparr>items = out, requests = [(page_limit, off)], raised = None\<rparr>
               else if \<not> has_more page \<or> length (data page) = 0 then
                 Some \<lparr>items = out, requests = [(page_limit, off)], raised = None\<rparr>
               else
                 (case paginate later page_limit max_items (next_offset page) yielded' of
                    None \<Rightarrow> None
                  | Some run \<Rightarrow>
                      Some \<lparr>items = out @ items run,
                            requests = (page_limit, off) # requests run,
                            raised = raised run\<rparr>)))"

text \<open>
  \<open>list_auto_paginate(limit=..., max_items=...)\<close>: \<open>page_limit = limit or 50\<close>, and the
  loop starts at offset 0 with nothing yielded.
\<close>

definition list_auto_paginate ::
  "(exn + 'a sync_page) list \<Rightarrow> int option \<Rightarrow> int option \<Rightarrow> 'a pagination_run option" where
  "list_auto_paginate answers limit_arg max_items =
     paginate answers
       (case limit_arg of None \<Rightarrow> 50 | Some l \<Rightarrow> if l \<noteq> 0 then l else 50)
       max_items (Some 0) 0"

section \<open>The realtime client (\<open>_websocket.py\<close>)\<close>

subsection \<open>Event emitter\<close>

text \<open>
  A callback is called with the arguments of the event. What matters of a call here is
  whether it returns or raises, and what it raises; callbacks are taken not to change
  the client themselves.
\<close>

datatype arg = AJson json | AExn exn | AInt int | AStr string

type_synonym callback = "arg list \<Rightarrow> exn option"

type_synonym listeners = "(string \<times> callback list) list"

text \<open>
  The outcome of \<open>_emit\<close>: how many callbacks were called, what \<open>logger.exception\<close>
  recorded, and the exception that left \<open>_emit\<close>, if one did.
\<close>

record emit_outcome =
  invoked :: nat
  logged :: "(string \<times> exn) list"
  propagated :: "exn option"

text \<open>
  \<open>for callback in ...: try: callback(*args) except Exception: logger.exception(...)\<close>.
  The clause catches what derives from \<open>Exception\<close>; anything else leaves the loop.
\<close>

fun run_callbacks :: "string \<Rightarrow> callback list \<Rightarrow> arg list \<Rightarrow> emit_outcome" where
  "run_callbacks event [] args = \<lparr>invoked = 0, logged = [], propagated = None\<rparr>"
| "run_callbacks event (cb # cbs) args =
     (case cb args of
        None \<Rightarrow>
          (let r = run_callbacks event cbs args in r\<lparr>invoked := Suc (invoked r)\<rparr>)
      | Some e \<Rightarrow>
          if is_Exception e then
            (let r = run_callbacks event cbs args
             in r\<lparr>invoked := Suc (invoked r), logged := (event, e) # logged r\<rparr>)
          else \<lparr>invoked = 1, logged = [], propagated = Some e\<rparr>)"

definition emit :: "listeners \<Rightarrow> string \<Rightarrow> arg list \<Rightarrow> emit_outcome" where
  "emit ls event args =
     run_callbacks event (case map_of ls event of None \<Rightarrow> [] | Some cbs \<Rightarrow> cbs) args"

definition known_types :: "string list" where
  "known_types = [''connected'', ''market_update'', ''market_snapshot'', ''subscribed'',
                  ''unsubscribed'', ''error'']"

text \<open>
  \<open>_handle_message(message)\<close>. \<open>message.get("type", "")\<close> needs a \<open>dict\<close>: on any other
  value it raises \<open>AttributeError\<close>. Membership in the tuple of names compares with
  \<open>==\<close>, which only a string equal to one of them passes.
\<close>

definition handle_message :: "listeners \<Rightarrow> json \<Rightarrow> emit_outcome" where
  "handle_message ls msg =
     (case msg of
        JDict kvs \<Rightarrow>
          (case (case map_of kvs ''type'' of None \<Rightarrow> JStr '''' | Some t \<Rightarrow> t) of
             JStr msg_type \<Rightarrow>
               if msg_type \<in> set known_types then emit ls msg_type [AJson msg]
               else \<lparr>invoked = 0, logged = [], propagated = None\<rparr>
           | _ \<Rightarrow> \<lparr>invoked = 0, logged = [], propagated = None\<rparr>)
      | _ \<Rightarrow> \<lparr>invoked = 0, logged = [], propagated = Some AttributeError\<rparr>)"

subsection \<open>Receive loop\<close>

text \<open>
  One turn of \<open>while not self._closed\<close> in \<open>connect\<close>'s worker: \<open>recv\<close> times out,
  delivers a frame (its decoded JSON, \<open>None\<close> when \<open>json.loads\<close> fails) or raises; or the
  caller has closed the client meanwhile.
\<close>

datatype recv_event =
    RecvTimeout
  | RecvFrame "json option"
  | RecvRaises exn
  | CallerClosed

datatype loop_state = Running | Left | Escaped exn

record loop_outcome =
  turns :: nat
  dispatches :: "emit_outcome list"
  state :: loop_state

text \<open>
  The loop over the events it meets. \<open>except TimeoutError: continue\<close>, then
  \<open>except Exception as exc: ...; self._emit("error", exc); break\<close>; an exception that
  does not derive from \<open>Exception\<close> escapes the loop. With no event left the loop is
  still running.
\<close>

fun receive_loop :: "listeners \<Rightarrow> recv_event list \<Rightarrow> loop_outcome" where
  "receive_loop ls [] = \<lparr>turns = 0, dispatches = [], state = Running\<rparr>"
| "receive_loop ls (ev # evs) =
     (case ev of
        CallerClosed \<Rightarrow> \<lparr>turns = 0, dispatches = [], state = Left\<rparr>
      | RecvTimeout \<Rightarrow>
          (let r = receive_loop ls evs in r\<lparr>turns := Suc (turns r)\<rparr>)
      | RecvRaises e \<Rightarrow>
          if is_Exception e then
            (let d = emit ls ''error'' [AExn e] in
             \<lparr>turns = 1, dispatches = [d],
              state = (case propagated d of None \<Rightarrow> Left | Some x \<Rightarrow> Escaped x)\<rparr>)
          else \<lparr>turns = 1, dispatches = [], state = Escaped e\<rparr>
      | RecvFrame None \<Rightarrow>
          (let d = emit ls ''error'' [AExn JSONDecodeError] in
           \<lparr>turns = 1, dispatches = [d],
            state = (case propagated d of None \<Rightarrow> Left | Some x \<Rightarrow> Escaped x)\<rparr>)
      | RecvFrame (Some msg) \<Rightarrow>
          (let d = handle_message ls msg in
           case propagated d of
             None \<Rightarrow>
               (let r = receive_loop ls evs
                in r\<lparr>turns := Suc (turns r), dispatches := d # dispatches r\<rparr>)
           | Some e \<Rightarrow>
               if is_Exception e then
                 (let d' = emit ls ''error'' [AExn e] in
                  \<lparr>turns = 1, dispatches = [d, d'],
                   state = (case propagated d' of None \<Rightarrow> Left | Some x \<Rightarrow> Escaped x)\<rparr>)
               else \<lparr>turns = 1, dispatches = [d], state = Escaped e\<rparr>))"

subsection \<open>Subscriptions and reconnection\<close>


datatype frame =
    Subscribe "string list"
  | Unsubscribe "string list"
  | ListSubscriptions
  | Ping












section \<open>Key-casing normalizer (\<open>_camel_to_snake\<close>, \<open>_transform_keys\<close>)\<close>








section \<open>Concrete worlds for the examples\<close>

text \<open>The rate-limit headers of the test suite's fixture (\<open>tests/conftest.py\<close>).\<close>

definition RATE_LIMIT_HEADERS :: "(string \<times> string) list" where
  "RATE_LIMIT_HEADERS =
     [(''x-ratelimit-plan'', ''pro''),
      (''x-billing-type'', ''subscription''),
      (''x-ratelimit-limit-day'', ''10000''),
      (''x-ratelimit-remaining-day'', ''9999''),
      (''x-ratelimit-limit-minute'', ''100''),
      (''x-ratelimit-remaining-minute'', ''98'')]"

definition ok_response :: response where
  "ok_response =
     \<lparr>status_code = 200, json_body = Some (JDict [(''data'', JList [])]),
      resp_headers = RATE_LIMIT_HEADERS\<rparr>"


definition world_of :: "response \<Rightarrow> env" where
  "world_of r =
     \<lparr>transport = (\<lambda>k. Responds r), random = (\<lambda>k. 0), float_str = (\<lambda>s. None),
      timeout_repr = ''30.0''\<rparr>"

definition keyed_client :: client where
  "keyed_client = init_client (Some ''pk_test_123'') None None None"


text \<open>The error body of the spec's round-trip example, and one whose \<open>error\<close> is empty.\<close>

definition plan_body :: "(string \<times> json) list" where
  "plan_body = [(''error'', JStr ''x''), (''requiredPlan'', JStr ''pro'')]"

definition empty_error_body :: "(string \<times> json) list" where
  "empty_error_body = [(''error'', JStr ''''), (''message'', JStr ''m'')]"

text \<open>
  The pages of the test suite's pagination tests (\<open>tests/resources/test_markets.py\<close>):
  two pages of one item each out of two, and one page of two items out of ten.
\<close>

definition single_page :: "'a \<Rightarrow> int \<Rightarrow> 'a sync_page" where
  "single_page x off =
     \<lparr>data = [x], meta = \<lparr>total = 2, limit = 1, offset = off, sources = JNull\<rparr>,
      rate_limit = None\<rparr>"

definition double_page :: "'a \<Rightarrow> 'a \<Rightarrow> int \<Rightarrow> 'a sync_page" where
  "double_page x y tot =
     \<lparr>data = [x, y], meta = \<lparr>total = tot, limit = 2, offset = 0, sources = JNull\<rparr>,
      rate_limit = None\<rparr>"

text \<open>
  Listeners for \<open>market_update\<close>: a first handler that raises (a \<open>ValueError\<close>, or
  \<open>SystemExit\<close> as \<open>sys.exit()\<close> does) and a second one that returns.
\<close>

definition failing_listeners :: listeners where
  "failing_listeners = [(''market_update'', [\<lambda>args. Some ValueError, \<lambda>args. None])]"

definition exiting_listeners :: listeners where
  "exiting_listeners = [(''market_update'', [\<lambda>args. Some SystemExit, \<lambda>args. None])]"

definition update_message :: json where
  "update_message = JDict [(''type'', JStr ''market_update''), (''marketId'', JStr ''pm_123'')]"

definition unknown_message :: json where
  "unknown_message = JDict [(''type'', JStr ''heartbeat'')]"






text \<open>A 502 answer whose body is valid JSON but not an object.\<close>

definition gateway_response :: response where
  "gateway_response =
     \<lparr>status_code = 502, json_body = Some (JStr ''Bad Gateway''), resp_headers = []\<rparr>"

section \<open>Vocabulary of the statements\<close>




text \<open>
  How many more items the generator may yield before the check
  \<open>max_items and yielded >= max_items\<close> ends it, when \<open>yielded\<close> items are out: no bound
  without a cap or with the cap 0; otherwise what is left of the cap, and one item when
  nothing is left, since the check runs only after an item has been yielded.
\<close>

definition quota :: "int option \<Rightarrow> int \<Rightarrow> nat option" where
  "quota max_items yielded =
     (case max_items of
        None \<Rightarrow> None
      | Some m \<Rightarrow> if m = 0 then None else Some (max 1 (nat (m - yielded))))"

text \<open>The items of the first \<open>n\<close> pages, in the order the server sent them.\<close>

definition flattened :: "nat \<Rightarrow> 'a sync_page list \<Rightarrow> 'a list" where
  "flattened n ps = concat (map data (take n ps))"

text \<open>A page after which the driver stops for lack of more: the last page, or an empty one.\<close>

definition final_page :: "'a sync_page \<Rightarrow> bool" where
  "final_page p = (\<not> has_more p \<or> length (data p) = 0)"

text \<open>A run that goes on after a page: the page's items and request come first.\<close>

definition extend :: "'a list \<Rightarrow> int \<times> int option \<Rightarrow> 'a pagination_run \<Rightarrow> 'a pagination_run" where
  "extend out req run =
     \<lparr>items = out @ items run, requests = req # requests run, raised = raised run\<rparr>"

text \<open>A call of a callback that returns, or raises something deriving from \<open>Exception\<close>.\<close>

definition contained :: "callback \<Rightarrow> arg list \<Rightarrow> bool" where
  "contained cb args = (case cb args of None \<Rightarrow> True | Some e \<Rightarrow> is_Exception e)"

text \<open>What \<open>logger.exception\<close> records when the callbacks of an event are called in order.\<close>

definition failures :: "string \<Rightarrow> callback list \<Rightarrow> arg list \<Rightarrow> (string \<times> exn) list" where
  "failures event cbs args = List.map_filter (\<lambda>cb. map_option (Pair event) (cb args)) cbs"

text \<open>A turn of the receive loop that times out or delivers a JSON object.\<close>

fun quiet_turn :: "recv_event \<Rightarrow> bool" where
  "quiet_turn RecvTimeout = True"
| "quiet_turn (RecvFrame (Some (JDict kvs))) = True"
| "quiet_turn ev = False"

text \<open>The \<open>type\<close> of a message: \<open>message.get("type", "")\<close>.\<close>

definition type_of_message :: "(string \<times> json) list \<Rightarrow> json" where
  "type_of_message kvs = (case map_of kvs ''type'' of None \<Rightarrow> JStr '''' | Some t \<Rightarrow> t)"





section \<open>Pagination cursor\<close>

text \<open>
  Claim C8. For every pagination metadata triple, \<open>has_more()\<close> is true exactly when
  \<open>offset + limit < total\<close>; \<open>next_offset()\<close> is \<open>None\<close> exactly when \<open>has_more()\<close> is
  false, and is \<open>offset + limit\<close> otherwise.
\<close>

theorem pagination_cursor:
  "has_more page = (offset (meta page) + limit (meta page) < total (meta page))
   \<and> (next_offset page = None) = (\<not> has_more page)
   \<and> next_offset page =
       (if has_more page then Some (offset (meta page) + limit (meta page)) else None)"
  by (simp add: has_more_def next_offset_def)

theorem pagination_cursor_witness:
  "has_more \<lparr>data = [''a'', ''b''], meta = \<lparr>total = 5, limit = 2, offset = 0, sources = JNull\<rparr>,
             rate_limit = None\<rparr>
   \<and> next_offset \<lparr>data = [''a'', ''b''], meta = \<lparr>total = 5, limit = 2, offset = 0, sources = JNull\<rparr>,
                  rate_limit = None\<rparr> = Some 2
   \<and> \<not> has_more \<lparr>data = [''e''], meta = \<lparr>total = 5, limit = 2, offset = 4, sources = JNull\<rparr>,
               rate_limit = None\<rparr>
   \<and> next_offset \<lparr>data = [''e''], meta = \<lparr>total = 5, limit = 2, offset = 4, sources = JNull\<rparr>,
                  rate_limit = None\<rparr> = None"
  using
    pagination_cursor [of "\<lparr>data = [''a'', ''b''],
      meta = \<lparr>total = 5, limit = 2, offset = 0, sources = JNull\<rparr>, rate_limit = None\<rparr>"]
    pagination_cursor [of "\<lparr>data = [''e''],
      meta = \<lparr>total = 5, limit = 2, offset = 4, sources = JNull\<rparr>, rate_limit = None\<rparr>"]
  by simp

section \<open>Requests without a credential\<close>

lemma init_client_no_key:
  "\<not> str_truthy key \<Longrightarrow> \<not> str_truthy env_key
   \<Longrightarrow> \<not> str_truthy (api_key (init_client key env_key url retries))"
  by (simp add: init_client_def str_or_def)

text \<open>
  Claim C3. A client built with no explicit key and no environment fallback (each
  missing or empty) fails every request that needs authentication at once with an
  \<open>AuthenticationError\<close>: no network call is issued and nothing is slept, so the retry
  loop is never entered, whatever the world and the retry budget are.
\<close>

theorem no_credential_fails_locally:
  assumes "\<not> str_truthy key" and "\<not> str_truthy env_key"
  shows "\<exists>e. result (request w (init_client key env_key url retries) True)
               = Inl (PropheseerExn e)
             \<and> cls e = C_AuthenticationError \<and> status e = Some 401
             \<and> calls (request w (init_client key env_key url retries) True) = 0
             \<and> sleeps (request w (init_client key env_key url retries) True) = []"
  using init_client_no_key [OF assms, of url retries]
  by (simp add: request_def AuthenticationError_def PropheseerError_def)

theorem no_credential_fails_locally_witness:
  "\<not> str_truthy None \<and> \<not> str_truthy (Some [])
   \<and> (\<exists>e. result (request (world_of ok_response) (init_client None (Some []) None (Some 5)) True)
               = Inl (PropheseerExn e)
          \<and> cls e = C_AuthenticationError \<and> status e = Some 401
          \<and> calls (request (world_of ok_response) (init_client None (Some []) None (Some 5)) True) = 0
          \<and> sleeps (request (world_of ok_response) (init_client None (Some []) None (Some 5)) True) = [])"
proof -
  have a: "\<not> str_truthy None" and b: "\<not> str_truthy (Some [])"
    by (simp_all add: str_truthy_def)
  from no_credential_fails_locally [OF a b, of "world_of ok_response" None "Some 5"] a b
  show ?thesis by simp
qed

text \<open>The same client with a key does reach the network.\<close>

lemma keyed_request_reaches_network:
  "calls (request (world_of ok_response) keyed_client True) = 1
   \<and> (\<exists>d rl. result (request (world_of ok_response) keyed_client True) = Inr (d, rl, ok_response))"
  by (simp add: request_def keyed_client_def init_client_def str_or_def str_truthy_def
      DEFAULT_MAX_RETRIES_def py_range_def sleep_before_def world_of_def ok_response_def
      is_success_def parse_rate_limit_headers_def headers_get_def RATE_LIMIT_HEADERS_def
      RateLimitInfo_def bind_exn_def set_int_field_def py_int_def strip_def is_space_def
      parse_unsigned_def is_digit_def digit_chars_def digit_val_def upt_rec)

section \<open>Retry policy\<close>





section \<open>Rate-limit headers and the request pipeline\<close>














lemmas request_eval =
  request_def init_client_def str_or_def DEFAULT_MAX_RETRIES_def py_range_def
  sleep_before_def world_of_def is_success_def keyed_client_def



section \<open>Error mapping\<close>

lemmas error_ctor_defs =
  PropheseerError_def AuthenticationError_def InsufficientCreditsError_def
  PermissionDeniedError_def NotFoundError_def RateLimitError_def InternalServerError_def

lemma map_status_headers: "headers (map_status_to_error s body hdrs) = Some hdrs"
  by (simp add: map_status_to_error_def Let_def error_ctor_defs)

lemma map_status_message:
  "message (map_status_to_error s body hdrs) =
     py_or (dict_get body ''error'')
       (py_or (dict_get body ''message'') (JStr (''API error: '' @ str_int s)))"
  by (simp add: map_status_to_error_def Let_def error_ctor_defs)

lemma map_status_cls:
  "cls (map_status_to_error s body hdrs) =
     (if s = 401 then C_AuthenticationError
      else if s = 402 then C_InsufficientCreditsError
      else if s = 403 then C_PermissionDeniedError
      else if s = 404 then C_NotFoundError
      else if s = 429 then C_RateLimitError
      else if 500 \<le> s then C_InternalServerError
      else C_PropheseerError)"
  by (simp add: map_status_to_error_def Let_def error_ctor_defs)

lemma map_status_status: "status (map_status_to_error s body hdrs) = Some s"
  by (simp add: map_status_to_error_def Let_def error_ctor_defs)

lemma map_status_fields:
  "s = 402 \<Longrightarrow> balance_cents (map_status_to_error s body hdrs) = dict_get body ''balanceCents''"
  "s = 402 \<Longrightarrow> required_cents (map_status_to_error s body hdrs) = dict_get body ''requiredCents''"
  "s = 403 \<Longrightarrow> required_plan (map_status_to_error s body hdrs) = dict_get body ''requiredPlan''"
  "s = 403 \<Longrightarrow> code (map_status_to_error s body hdrs)
                  = py_or (dict_get body ''code'') (JStr ''FORBIDDEN'')"
  "s = 429 \<Longrightarrow> retry_after (map_status_to_error s body hdrs) = dict_get body ''retryAfter''"
  "s < 500 \<Longrightarrow> s \<notin> {401, 402, 403, 404, 429}
     \<Longrightarrow> code (map_status_to_error s body hdrs) = dict_get body ''code''"
  by (simp_all add: map_status_to_error_def Let_def error_ctor_defs)

text \<open>
  Claim C4, as the code has it. \<open>_map_status_to_error\<close> is a function of its three
  arguments alone and has a value for every status, every \<open>dict\<close> body and every header
  collection. It maps 401 to \<open>AuthenticationError\<close>; 402 to \<open>InsufficientCreditsError\<close>
  with \<open>balance_cents\<close> and \<open>required_cents\<close> read from \<open>balanceCents\<close> and
  \<open>requiredCents\<close>; 403 to \<open>PermissionDeniedError\<close> with \<open>required_plan\<close> read from
  \<open>requiredPlan\<close> and the body's \<open>code\<close>, \<open>FORBIDDEN\<close> when that is missing or false; 404
  to \<open>NotFoundError\<close>; 429 to \<open>RateLimitError\<close> with \<open>retry_after\<close> read from
  \<open>retryAfter\<close>; a status from 500 up to \<open>InternalServerError\<close>; anything else to the
  base class with the body's \<open>code\<close>. The status of the error is the status mapped, and
  its headers are the response's. The message is the body's \<open>error\<close> when that value is
  true in Python's sense (not missing, \<open>null\<close>, empty or zero), else its \<open>message\<close> when
  that is true, else \<open>API error: \<close> followed by the status. The body
  \<open>{"error": "x", "requiredPlan": "pro"}\<close> at 403 gives a \<open>PermissionDeniedError\<close> with
  \<open>required_plan\<close> \<open>pro\<close> and status 403.
\<close>

theorem error_mapping:
  assumes "e = map_status_to_error s body hdrs"
  shows "headers e = Some hdrs \<and> status e = Some s
   \<and> (s = 401 \<longrightarrow> cls e = C_AuthenticationError)
   \<and> (s = 402 \<longrightarrow> cls e = C_InsufficientCreditsError
         \<and> balance_cents e = dict_get body ''balanceCents''
         \<and> required_cents e = dict_get body ''requiredCents'')
   \<and> (s = 403 \<longrightarrow> cls e = C_PermissionDeniedError
         \<and> required_plan e = dict_get body ''requiredPlan''
         \<and> code e = py_or (dict_get body ''code'') (JStr ''FORBIDDEN''))
   \<and> (s = 404 \<longrightarrow> cls e = C_NotFoundError)
   \<and> (s = 429 \<longrightarrow> cls e = C_RateLimitError
         \<and> retry_after e = dict_get body ''retryAfter'')
   \<and> (500 \<le> s \<longrightarrow> cls e = C_InternalServerError)
   \<and> (s < 500 \<and> s \<notin> {401, 402, 403, 404, 429}
         \<longrightarrow> cls e = C_PropheseerError \<and> code e = dict_get body ''code'')
   \<and> (truthy (dict_get body ''error'') \<longrightarrow> message e = dict_get body ''error'')
   \<and> (\<not> truthy (dict_get body ''error'') \<and> truthy (dict_get body ''message'')
         \<longrightarrow> message e = dict_get body ''message'')
   \<and> (\<not> truthy (dict_get body ''error'') \<and> \<not> truthy (dict_get body ''message'')
         \<longrightarrow> message e = JStr (''API error: '' @ str_int s))
   \<and> cls (map_status_to_error 403 plan_body hdrs) = C_PermissionDeniedError
   \<and> required_plan (map_status_to_error 403 plan_body hdrs) = JStr ''pro''
   \<and> status (map_status_to_error 403 plan_body hdrs) = Some 403"
proof -
  have m: "message e = py_or (dict_get body ''error'')
       (py_or (dict_get body ''message'') (JStr (''API error: '' @ str_int s)))"
    using assms by (simp add: map_status_message)
  have example: "required_plan (map_status_to_error 403 plan_body hdrs) = JStr ''pro''"
    by (simp add: map_status_fields plan_body_def dict_get_def)
  show ?thesis
    unfolding assms
    using m [unfolded assms] example
    by (simp add: map_status_headers map_status_status map_status_cls map_status_fields
        py_or_def)
qed

theorem error_mapping_witness:
  "cls (map_status_to_error 401 [] []) = C_AuthenticationError
   \<and> message (map_status_to_error 401 [] []) = JStr ''API error: 401''
   \<and> balance_cents (map_status_to_error 402
        [(''message'', JStr ''no credits''), (''balanceCents'', JInt 50)] []) = JInt 50
   \<and> message (map_status_to_error 402
        [(''message'', JStr ''no credits''), (''balanceCents'', JInt 50)] []) = JStr ''no credits''
   \<and> code (map_status_to_error 403 plan_body []) = JStr ''FORBIDDEN''
   \<and> message (map_status_to_error 403 plan_body []) = JStr ''x''
   \<and> required_plan (map_status_to_error 403 plan_body []) = JStr ''pro''
   \<and> cls (map_status_to_error 404 [] []) = C_NotFoundError
   \<and> retry_after (map_status_to_error 429 [(''retryAfter'', JInt 30)] []) = JInt 30
   \<and> cls (map_status_to_error 502 [] []) = C_InternalServerError
   \<and> status (map_status_to_error 502 [] []) = Some 502
   \<and> cls (map_status_to_error 418 [(''code'', JStr ''TEAPOT'')] []) = C_PropheseerError
   \<and> code (map_status_to_error 418 [(''code'', JStr ''TEAPOT'')] []) = JStr ''TEAPOT''"
  using
    error_mapping [OF refl, of 401 "[]" "[]"]
    error_mapping [OF refl, of 402 "[(''message'', JStr ''no credits''), (''balanceCents'', JInt 50)]" "[]"]
    error_mapping [OF refl, of 403 plan_body "[]"]
    error_mapping [OF refl, of 404 "[]" "[]"]
    error_mapping [OF refl, of 429 "[(''retryAfter'', JInt 30)]" "[]"]
    error_mapping [OF refl, of 502 "[]" "[]"]
    error_mapping [OF refl, of 418 "[(''code'', JStr ''TEAPOT'')]" "[]"]
  by (simp add: dict_get_def plan_body_def py_or_def str_int_def nat_digits.simps digit_chr_def)

text \<open>
  The claim as stated takes the body's \<open>error\<close> value whenever the body has one. With
  the body \<open>{"error": "", "message": "m"}\<close> the body's \<open>error\<close> value is the empty string,
  and the mapped message is \<open>m\<close>.
\<close>

theorem empty_error_counterexample:
  "map_of empty_error_body ''error'' = Some (JStr '''')
   \<and> message (map_status_to_error 400 empty_error_body []) = JStr ''m''
   \<and> message (map_status_to_error 400 empty_error_body []) \<noteq> dict_get empty_error_body ''error''"
  by (simp add: map_status_message empty_error_body_def dict_get_def py_or_def)

text \<open>
  The mapper is defined on \<open>dict\<close> bodies. The pipeline hands it whatever
  \<open>response.json()\<close> returns: an error answer whose body is JSON but not an object makes
  \<open>body.get\<close> raise \<open>AttributeError\<close>, which leaves \<open>_request\<close> at the first attempt.
\<close>

lemma non_object_error_body:
  "result (request (world_of gateway_response) keyed_client True) = Inl AttributeError
   \<and> calls (request (world_of gateway_response) keyed_client True) = 1"
  by (simp add: request_eval str_truthy_def gateway_response_def upt_rec)

section \<open>Auto-pagination\<close>

lemma yield_items_quota:
  "yield_items mx y xs =
     (case quota mx y of
        None \<Rightarrow> (xs, y + int (length xs), False)
      | Some k \<Rightarrow> (take k xs, y + int (min (length xs) k), k \<le> length xs))"
proof (induction xs arbitrary: y)
  case Nil
  show ?case by (auto simp: quota_def max_def split: option.splits)
next
  case (Cons x xs)
  show ?case
  proof (cases "quota mx y")
    case None
    then have nc: "\<And>z. cap_reached mx z = False" "\<And>z. quota mx z = None"
      by (auto simp: quota_def cap_reached_def split: option.splits if_splits)
    show ?thesis using Cons [of "y + 1"] by (simp add: nc)
  next
    case (Some k)
    then obtain m where m: "mx = Some m" "m \<noteq> 0" "k = max 1 (nat (m - y))"
      by (auto simp: quota_def split: option.splits if_splits)
    show ?thesis
    proof (cases "m \<le> y + 1")
      case True
      then have "k = 1" using m by simp
      moreover have "cap_reached mx (y + 1)" using True m by (simp add: cap_reached_def)
      ultimately show ?thesis using Some by simp
    next
      case False
      then have c: "\<not> cap_reached mx (y + 1)" using m by (simp add: cap_reached_def)
      have q: "quota mx (y + 1) = Some (k - 1)" and k: "2 \<le> k"
        using False m by (auto simp: quota_def)
      then obtain j where j: "k = Suc j" by (cases k) auto
      show ?thesis using Cons [of "y + 1"] c q j Some by (simp add: min_def)
    qed
  qed
qed

lemma quota_step:
  assumes "quota mx y = Some k" and "length xs < k"
  shows "quota mx (y + int (length xs)) = Some (k - length xs)"
  using assms by (auto simp: quota_def split: option.splits if_splits)

lemma quota_None_step: "quota mx y = None \<Longrightarrow> quota mx z = None"
  by (auto simp: quota_def split: option.splits if_splits)

lemma paginate_page:
  "paginate (Inr p # later) pl mx off y =
     (case quota mx y of
        None \<Rightarrow>
          if final_page p then Some \<lparr>items = data p, requests = [(pl, off)], raised = None\<rparr>
          else map_option (extend (data p) (pl, off))
                 (paginate later pl mx (next_offset p) (y + int (length (data p))))
      | Some k \<Rightarrow>
          if k \<le> length (data p)
          then Some \<lparr>items = take k (data p), requests = [(pl, off)], raised = None\<rparr>
          else if final_page p
          then Some \<lparr>items = data p, requests = [(pl, off)], raised = None\<rparr>
          else map_option (extend (data p) (pl, off))
                 (paginate later pl mx (next_offset p) (y + int (length (data p)))))"
  by (auto simp: yield_items_quota final_page_def extend_def split: option.splits)


lemma paginate_page_cases:
  assumes "paginate (Inr p # later) pl mx off y = Some r"
  obtains (stop_final) "final_page p" and "\<forall>k. quota mx y = Some k \<longrightarrow> length (data p) < k"
      and "r = \<lparr>items = data p, requests = [(pl, off)], raised = None\<rparr>"
    | (stop_cap) k where "quota mx y = Some k" and "k \<le> length (data p)"
      and "r = \<lparr>items = take k (data p), requests = [(pl, off)], raised = None\<rparr>"
    | (continue) r' where "\<not> final_page p"
      and "\<forall>k. quota mx y = Some k \<longrightarrow> length (data p) < k"
      and "paginate later pl mx (next_offset p) (y + int (length (data p))) = Some r'"
      and "r = extend (data p) (pl, off) r'"
  using assms unfolding paginate_page
  by (auto split: option.splits if_splits)

lemma flattened_simps:
  "flattened 0 ps = []"
  "flattened n [] = []"
  "flattened (Suc n) (p # ps) = data p @ flattened n ps"
  by (simp_all add: flattened_def)

lemma quota_continue:
  assumes "\<forall>k. quota mx y = Some k \<longrightarrow> length xs < k"
  shows "quota mx (y + int (length xs)) = map_option (\<lambda>k. k - length xs) (quota mx y)"
proof (cases "quota mx y")
  case None
  then show ?thesis by (simp add: quota_None_step)
next
  case (Some k)
  with assms show ?thesis by (simp add: quota_step)
qed

lemma paginate_requests:
  assumes "paginate (map Inr ps) pl mx off y = Some r"
  shows "raised r = None \<and> 1 \<le> length (requests r) \<and> length (requests r) \<le> length ps
         \<and> requests r = map (Pair pl) (off # map next_offset (take (length (requests r) - 1) ps))"
  using assms
proof (induction ps arbitrary: off y r)
  case Nil
  then show ?case by simp
next
  case (Cons p ps)
  from Cons.prems have "paginate (Inr p # map Inr ps) pl mx off y = Some r" by simp
  then show ?case
  proof (cases rule: paginate_page_cases)
    case stop_final
    then show ?thesis by simp
  next
    case (stop_cap k)
    then show ?thesis by simp
  next
    case (continue r')
    from Cons.IH [OF continue(3)] obtain n where n: "length (requests r') = Suc n"
      by (cases "length (requests r')") auto
    with Cons.IH [OF continue(3)] continue(4) show ?thesis
      by (simp add: extend_def)
  qed
qed

lemma paginate_items:
  assumes "paginate (map Inr ps) pl mx off y = Some r"
  shows "items r = (case quota mx y of
                      None \<Rightarrow> flattened (length (requests r)) ps
                    | Some k \<Rightarrow> take k (flattened (length (requests r)) ps))"
  using assms
proof (induction ps arbitrary: off y r)
  case Nil
  then show ?case by simp
next
  case (Cons p ps)
  from Cons.prems have "paginate (Inr p # map Inr ps) pl mx off y = Some r" by simp
  then show ?case
  proof (cases rule: paginate_page_cases)
    case stop_final
    then show ?thesis by (auto simp: flattened_simps split: option.splits)
  next
    case (stop_cap k)
    then show ?thesis by (simp add: flattened_simps)
  next
    case (continue r')
    from Cons.IH [OF continue(3)] continue(2,4) quota_continue [OF continue(2)]
    show ?thesis
      by (auto simp: extend_def flattened_simps split: option.splits)
  qed
qed

lemma paginate_no_extra_request:
  assumes "paginate (map Inr ps) pl mx off y = Some r" and "quota mx y = Some k"
  shows "length (flattened (length (requests r) - 1) ps) < k"
  using assms
proof (induction ps arbitrary: off y r k)
  case Nil
  then show ?case by simp
next
  case (Cons p ps)
  from Cons.prems have k: "0 < k" by (auto simp: quota_def split: option.splits if_splits)
  from Cons.prems have "paginate (Inr p # map Inr ps) pl mx off y = Some r" by simp
  then show ?case
  proof (cases rule: paginate_page_cases)
    case stop_final
    then show ?thesis using k by (simp add: flattened_simps)
  next
    case (stop_cap j)
    then show ?thesis using k by (simp add: flattened_simps)
  next
    case (continue r')
    have q: "quota mx (y + int (length (data p))) = Some (k - length (data p))"
      and l: "length (data p) < k"
      using quota_continue [OF continue(2)] continue(2) Cons.prems(2) by simp_all
    from paginate_requests [OF continue(3)] obtain n where n: "length (requests r') = Suc n"
      by (cases "length (requests r')") auto
    from Cons.IH [OF continue(3) q] n l continue(4) show ?thesis
      by (simp add: extend_def flattened_simps)
  qed
qed

lemma paginate_earlier_pages:
  assumes "paginate (map Inr ps) pl mx off y = Some r"
  shows "\<forall>p \<in> set (take (length (requests r) - 1) ps). \<not> final_page p"
  using assms
proof (induction ps arbitrary: off y r)
  case Nil
  then show ?case by simp
next
  case (Cons p ps)
  from Cons.prems have "paginate (Inr p # map Inr ps) pl mx off y = Some r" by simp
  then show ?case
  proof (cases rule: paginate_page_cases)
    case stop_final
    then show ?thesis by simp
  next
    case (stop_cap k)
    then show ?thesis by simp
  next
    case (continue r')
    from paginate_requests [OF continue(3)] obtain n where n: "length (requests r') = Suc n"
      by (cases "length (requests r')") auto
    from Cons.IH [OF continue(3)] n continue(1,4) show ?thesis
      by (simp add: extend_def)
  qed
qed

lemma paginate_terminates:
  assumes "\<exists>p \<in> set ps. final_page p"
  shows "\<exists>r. paginate (map Inr ps) pl mx off y = Some r"
  using assms
proof (induction ps arbitrary: off y)
  case Nil
  then show ?case by simp
next
  case (Cons p ps)
  show ?case
  proof (cases "final_page p")
    case True
    then show ?thesis by (simp add: paginate_page del: paginate.simps split: option.splits)
  next
    case False
    with Cons.prems have "\<exists>q \<in> set ps. final_page q" by simp
    from Cons.IH [OF this, of "next_offset p" "y + int (length (data p))"] False
    show ?thesis
      by (auto simp: paginate_page simp del: paginate.simps split: option.splits)
  qed
qed

lemma paginate_terminates_cap:
  assumes "quota mx y = Some k" and "k \<le> length (concat (map data ps))"
  shows "\<exists>r. paginate (map Inr ps) pl mx off y = Some r"
  using assms
proof (induction ps arbitrary: off y k)
  case Nil
  then show ?case by (auto simp: quota_def split: option.splits if_splits)
next
  case (Cons p ps)
  show ?case
  proof (cases "k \<le> length (data p)")
    case True
    with Cons.prems show ?thesis by (simp add: paginate_page del: paginate.simps)
  next
    case False
    then have q: "quota mx (y + int (length (data p))) = Some (k - length (data p))"
      using Cons.prems(1) by (simp add: quota_step)
    from Cons.prems(2) False have "k - length (data p) \<le> length (concat (map data ps))" by simp
    from Cons.IH [OF q this, of "next_offset p"] False Cons.prems(1) show ?thesis
      by (auto simp: paginate_page simp del: paginate.simps)
  qed
qed

lemma paginate_prefix:
  assumes "paginate answers pl mx off y = Some r"
  shows "paginate (answers @ others) pl mx off y = Some r"
  using assms
proof (induction answers arbitrary: off y r)
  case Nil
  then show ?case by simp
next
  case (Cons a answers)
  then show ?case
    by (auto split: sum.splits prod.splits option.splits if_splits)
qed

lemma paginate_cap_zero: "paginate answers pl (Some 0) off y = paginate answers pl None off y"
proof -
  have c: "cap_reached (Some 0) = cap_reached None"
    by (rule ext) (simp add: cap_reached_def)
  have "yield_items (Some 0) k xs = yield_items None k xs" for k and xs :: "'a list"
    by (induction xs arbitrary: k) (simp_all add: c)
  then show ?thesis
    by (induction answers arbitrary: off y)
      (auto split: sum.splits prod.splits option.splits)
qed

lemma paginate_stops_at_final:
  assumes "paginate (map Inr ps) pl mx off y = Some r"
    and "k < length ps" and "final_page (ps ! k)"
  shows "length (requests r) \<le> Suc k"
proof (rule ccontr)
  assume "\<not> length (requests r) \<le> Suc k"
  then have "k < length (requests r) - 1" by simp
  with assms(2) have "ps ! k \<in> set (take (length (requests r) - 1) ps)"
    by (auto simp: in_set_conv_nth intro!: exI [of _ k])
  with paginate_earlier_pages [OF assms(1)] assms(3) show False by blast
qed

lemma quota_start: "0 < m \<Longrightarrow> quota (Some m) 0 = Some (nat m)"
  by (simp add: quota_def)

lemmas paginate_eval =
  list_auto_paginate_def single_page_def double_page_def has_more_def next_offset_def
  cap_reached_def

text \<open>
  Claim C5. The list operation answers the driver's calls with the pages \<open>ps\<close>, in this
  order, and \<open>n\<close> is the number of calls the driver makes. The first call asks for
  offset 0 and every later one for the \<open>next_offset()\<close> of the page before. The run ends:
  it is determined as soon as one of the pages reports no more pages or has no items,
  and it makes no call past the first such page. Without a cap it yields the items of
  the \<open>n\<close> pages it fetched, flattened in the server's order. With a cap \<open>m > 0\<close> it
  yields the first \<open>m\<close> of them, so at most \<open>m\<close>, and the pages before the last one
  fetched held fewer than \<open>m\<close> items together: no call is made that the cap does not
  need. Whatever the list operation would answer to further calls does not change the
  run. Two pages of one item each with \<open>total = 2\<close> give both items in order in two
  calls; \<open>max_items = 1\<close> over a page of two items gives the first item in one call.
\<close>

theorem auto_pagination:
  "((\<exists>p \<in> set ps. final_page p)
      \<longrightarrow> (\<exists>run. list_auto_paginate (map Inr ps) limit_arg max_items = Some run))
   \<and> (list_auto_paginate (map Inr ps) limit_arg max_items = Some r \<longrightarrow>
        raised r = None
      \<and> 1 \<le> length (requests r) \<and> length (requests r) \<le> length ps
      \<and> map snd (requests r)
          = Some 0 # map next_offset (take (length (requests r) - 1) ps)
      \<and> (\<forall>k < length ps. final_page (ps ! k) \<longrightarrow> length (requests r) \<le> Suc k)
      \<and> (max_items = None \<longrightarrow> items r = flattened (length (requests r)) ps)
      \<and> (\<forall>m. max_items = Some m \<and> 0 < m \<longrightarrow>
            items r = take (nat m) (flattened (length (requests r)) ps)
          \<and> int (length (items r)) \<le> m
          \<and> length (flattened (length (requests r) - 1) ps) < nat m)
      \<and> list_auto_paginate (map Inr ps @ others) limit_arg max_items = Some r)
   \<and> list_auto_paginate (Inr (single_page a 0) # Inr (single_page b 1) # others) (Some 1) None
       = Some \<lparr>items = [a, b], requests = [(1, Some 0), (1, Some 1)], raised = None\<rparr>
   \<and> list_auto_paginate (Inr (double_page a b 10) # others) (Some 2) (Some 1)
       = Some \<lparr>items = [a], requests = [(2, Some 0)], raised = None\<rparr>"
proof -
  let ?pl = "case limit_arg of None \<Rightarrow> 50 | Some l \<Rightarrow> if l \<noteq> 0 then l else 50"
  have ends: "(\<exists>p \<in> set ps. final_page p)
      \<longrightarrow> (\<exists>run. list_auto_paginate (map Inr ps) limit_arg max_items = Some run)"
    unfolding list_auto_paginate_def using paginate_terminates by blast
  have run: "list_auto_paginate (map Inr ps) limit_arg max_items = Some r \<longrightarrow>
        raised r = None
      \<and> 1 \<le> length (requests r) \<and> length (requests r) \<le> length ps
      \<and> map snd (requests r)
          = Some 0 # map next_offset (take (length (requests r) - 1) ps)
      \<and> (\<forall>k < length ps. final_page (ps ! k) \<longrightarrow> length (requests r) \<le> Suc k)
      \<and> (max_items = None \<longrightarrow> items r = flattened (length (requests r)) ps)
      \<and> (\<forall>m. max_items = Some m \<and> 0 < m \<longrightarrow>
            items r = take (nat m) (flattened (length (requests r)) ps)
          \<and> int (length (items r)) \<le> m
          \<and> length (flattened (length (requests r) - 1) ps) < nat m)
      \<and> list_auto_paginate (map Inr ps @ others) limit_arg max_items = Some r"
  proof
    assume "list_auto_paginate (map Inr ps) limit_arg max_items = Some r"
    then have p: "paginate (map Inr ps) ?pl max_items (Some 0) 0 = Some r"
      by (simp add: list_auto_paginate_def)
    note req = paginate_requests [OF p]
    have offs: "map snd (requests r)
          = Some 0 # map next_offset (take (length (requests r) - 1) ps)"
    proof -
      have "map snd (requests r)
          = map snd (map (Pair ?pl) (Some 0 # map next_offset (take (length (requests r) - 1) ps)))"
        using req by simp
      then show ?thesis by (simp add: comp_def)
    qed
    have stops: "\<forall>k < length ps. final_page (ps ! k) \<longrightarrow> length (requests r) \<le> Suc k"
      using paginate_stops_at_final [OF p] by blast
    have nocap: "max_items = None \<longrightarrow> items r = flattened (length (requests r)) ps"
      using paginate_items [OF p] by (simp add: quota_def)
    have cap: "\<forall>m. max_items = Some m \<and> 0 < m \<longrightarrow>
            items r = take (nat m) (flattened (length (requests r)) ps)
          \<and> int (length (items r)) \<le> m
          \<and> length (flattened (length (requests r) - 1) ps) < nat m"
    proof (intro allI impI)
      fix m assume m: "max_items = Some m \<and> 0 < m"
      then have q: "quota max_items 0 = Some (nat m)" by (simp add: quota_start)
      have i: "items r = take (nat m) (flattened (length (requests r)) ps)"
        using paginate_items [OF p] q by simp
      have "length (items r) \<le> nat m" unfolding i by simp
      then have l: "int (length (items r)) \<le> m" using m by linarith
      from i l paginate_no_extra_request [OF p q]
      show "items r = take (nat m) (flattened (length (requests r)) ps)
          \<and> int (length (items r)) \<le> m
          \<and> length (flattened (length (requests r) - 1) ps) < nat m"
        by simp
    qed
    have more: "list_auto_paginate (map Inr ps @ others) limit_arg max_items = Some r"
      using paginate_prefix [OF p] by (simp add: list_auto_paginate_def)
    from req offs stops nocap cap more
    show "raised r = None
      \<and> 1 \<le> length (requests r) \<and> length (requests r) \<le> length ps
      \<and> map snd (requests r)
          = Some 0 # map next_offset (take (length (requests r) - 1) ps)
      \<and> (\<forall>k < length ps. final_page (ps ! k) \<longrightarrow> length (requests r) \<le> Suc k)
      \<and> (max_items = None \<longrightarrow> items r = flattened (length (requests r)) ps)
      \<and> (\<forall>m. max_items = Some m \<and> 0 < m \<longrightarrow>
            items r = take (nat m) (flattened (length (requests r)) ps)
          \<and> int (length (items r)) \<le> m
          \<and> length (flattened (length (requests r) - 1) ps) < nat m)
      \<and> list_auto_paginate (map Inr ps @ others) limit_arg max_items = Some r"
      by blast
  qed
  have two: "list_auto_paginate (Inr (single_page a 0) # Inr (single_page b 1) # others)
        (Some 1) None
       = Some \<lparr>items = [a, b], requests = [(1, Some 0), (1, Some 1)], raised = None\<rparr>"
    by (simp add: paginate_eval)
  have capped: "list_auto_paginate (Inr (double_page a b 10) # others) (Some 2) (Some 1)
       = Some \<lparr>items = [a], requests = [(2, Some 0)], raised = None\<rparr>"
    by (simp add: paginate_eval)
  from ends run two capped show ?thesis by blast
qed

theorem auto_pagination_witness:
  "final_page (single_page ''b'' 1)
   \<and> list_auto_paginate (map Inr [single_page ''a'' 0, single_page ''b'' 1]) (Some 1) None
       = Some \<lparr>items = [''a'', ''b''], requests = [(1, Some 0), (1, Some 1)], raised = None\<rparr>
   \<and> flattened 2 [single_page ''a'' 0, single_page ''b'' 1] = [''a'', ''b'']
   \<and> list_auto_paginate (map Inr [double_page ''a'' ''b'' 10]) (Some 2) (Some 1)
       = Some \<lparr>items = [''a''], requests = [(2, Some 0)], raised = None\<rparr>
   \<and> take (nat 1) (flattened 1 [double_page ''a'' ''b'' 10]) = [''a'']
   \<and> length (flattened 0 [double_page ''a'' ''b'' 10]) < nat 1
   \<and> list_auto_paginate (map Inr [double_page ''a'' ''b'' 10] @ [Inl ValueError]) (Some 2) (Some 1)
       = Some \<lparr>items = [''a''], requests = [(2, Some 0)], raised = None\<rparr>"
proof -
  let ?two = "[single_page ''a'' 0, single_page ''b'' 1]"
  let ?one = "[double_page ''a'' ''b'' 10]"
  let ?r2 = "\<lparr>items = [''a'', ''b''], requests = [(1, Some 0), (1, Some (1::int))], raised = None\<rparr>"
  let ?r1 = "\<lparr>items = [''a''], requests = [(2, Some (0::int))], raised = None\<rparr>"
  note two = auto_pagination [where ps = ?two and limit_arg = "Some 1" and max_items = None
      and r = ?r2 and others = "[]" and a = "''a''" and b = "''b''"]
  note one = auto_pagination [where ps = ?one and limit_arg = "Some 2" and max_items = "Some 1"
      and r = ?r1 and others = "[Inl ValueError]" and a = "''a''" and b = "''b''"]
  have f: "final_page (single_page ''b'' 1)"
    by (simp add: final_page_def paginate_eval)
  have a: "list_auto_paginate (map Inr ?two) (Some 1) None = Some ?r2"
    using two by simp
  have b: "list_auto_paginate (map Inr ?one) (Some 2) (Some 1) = Some ?r1"
    using two by simp
  have "items ?r2 = flattened (length (requests ?r2)) ?two"
    using two a by blast
  then have c: "flattened 2 ?two = [''a'', ''b'']"
    by (simp add: eval_nat_numeral)
  have more: "list_auto_paginate (map Inr ?one @ [Inl ValueError]) (Some 2) (Some 1) = Some ?r1"
    using one b by blast
  have "\<forall>m. Some 1 = Some m \<and> 0 < m \<longrightarrow>
            items ?r1 = take (nat m) (flattened (length (requests ?r1)) ?one)
          \<and> int (length (items ?r1)) \<le> m
          \<and> length (flattened (length (requests ?r1) - 1) ?one) < nat m"
    using one b by blast
  then have "items ?r1 = take (nat 1) (flattened (length (requests ?r1)) ?one)
      \<and> length (flattened (length (requests ?r1) - 1) ?one) < nat 1"
    by simp
  with more have d: "take (nat 1) (flattened 1 ?one) = [''a'']
      \<and> length (flattened 0 ?one) < nat 1
      \<and> list_auto_paginate (map Inr ?one @ [Inl ValueError]) (Some 2) (Some 1) = Some ?r1"
    by simp
  from f a b c d show ?thesis by blast
qed

text \<open>
  Claim C10, as the code has it. With \<open>max_items = 0\<close> the driver does what it does with
  no cap at all, whatever the list operation answers: it yields every item of every page
  it fetches. Any other \<open>max_items\<close> bounds the run: the items yielded are the first
  \<open>max(1, max_items)\<close> of the pages fetched, so at most \<open>max_items\<close> for a positive cap and
  at most one for a negative cap.
\<close>

theorem zero_cap_is_no_cap:
  "list_auto_paginate answers limit_arg (Some 0) = list_auto_paginate answers limit_arg None
   \<and> (list_auto_paginate (map Inr ps) limit_arg (Some 0) = Some r
        \<longrightarrow> items r = flattened (length (requests r)) ps)
   \<and> (m \<noteq> 0 \<and> list_auto_paginate (map Inr ps) limit_arg (Some m) = Some r
        \<longrightarrow> items r = take (max 1 (nat m)) (flattened (length (requests r)) ps)
          \<and> length (items r) \<le> max 1 (nat m))
   \<and> (m < 0 \<and> list_auto_paginate (map Inr ps) limit_arg (Some m) = Some r
        \<longrightarrow> length (items r) \<le> 1)"
proof -
  have zero: "list_auto_paginate answers limit_arg (Some 0)
      = list_auto_paginate answers limit_arg None"
    by (simp add: list_auto_paginate_def paginate_cap_zero)
  have every: "list_auto_paginate (map Inr ps) limit_arg (Some 0) = Some r
        \<longrightarrow> items r = flattened (length (requests r)) ps"
  proof
    assume "list_auto_paginate (map Inr ps) limit_arg (Some 0) = Some r"
    then show "items r = flattened (length (requests r)) ps"
      unfolding list_auto_paginate_def
      by (drule_tac paginate_items) (simp add: quota_def)
  qed
  have bound: "items r = take (max 1 (nat m)) (flattened (length (requests r)) ps)
          \<and> length (items r) \<le> max 1 (nat m)"
    if "m \<noteq> 0 \<and> list_auto_paginate (map Inr ps) limit_arg (Some m) = Some r"
  proof -
    from that have i: "items r = take (max 1 (nat m)) (flattened (length (requests r)) ps)"
      unfolding list_auto_paginate_def
      by (elim conjE, drule_tac paginate_items) (simp add: quota_def)
    have "length (items r) \<le> max 1 (nat m)" unfolding i by simp
    with i show ?thesis by simp
  qed
  have negative: "length (items r) \<le> 1"
    if "m < 0 \<and> list_auto_paginate (map Inr ps) limit_arg (Some m) = Some r"
    using bound that by auto
  from zero every bound negative show ?thesis by blast
qed

theorem zero_cap_is_no_cap_witness:
  "list_auto_paginate [Inr (double_page ''a'' ''b'' 2)] None (Some 0)
     = Some \<lparr>items = [''a'', ''b''], requests = [(50, Some 0)], raised = None\<rparr>
   \<and> list_auto_paginate [Inr (double_page ''a'' ''b'' 2)] None None
     = Some \<lparr>items = [''a'', ''b''], requests = [(50, Some 0)], raised = None\<rparr>
   \<and> flattened 1 [double_page ''a'' ''b'' 2] = [''a'', ''b'']
   \<and> take (max 1 (nat 1)) (flattened 1 [double_page ''a'' ''b'' 2]) = [''a'']
   \<and> length [''a''] \<le> max 1 (nat (- 1))"
proof -
  let ?ps = "[double_page ''a'' ''b'' 2]"
  let ?all = "\<lparr>items = [''a'', ''b''], requests = [(50, Some (0::int))], raised = None\<rparr>"
  let ?fst = "\<lparr>items = [''a''], requests = [(50, Some (0::int))], raised = None\<rparr>"
  note zero = zero_cap_is_no_cap [where answers = "map Inr ?ps" and ps = ?ps
      and limit_arg = None and r = ?all and m = 1]
  note pos = zero_cap_is_no_cap [where answers = "map Inr ?ps" and ps = ?ps
      and limit_arg = None and r = ?fst and m = 1]
  note neg = zero_cap_is_no_cap [where answers = "map Inr ?ps" and ps = ?ps
      and limit_arg = None and r = ?fst and m = "- 1"]
  have n: "list_auto_paginate (map Inr ?ps) None None = Some ?all"
    by (simp add: paginate_eval)
  have p: "list_auto_paginate (map Inr ?ps) None (Some 1) = Some ?fst"
    by (simp add: paginate_eval)
  have q: "list_auto_paginate (map Inr ?ps) None (Some (- 1)) = Some ?fst"
    by (simp add: paginate_eval)
  have "list_auto_paginate (map Inr ?ps) None (Some 0)
      = list_auto_paginate (map Inr ?ps) None None"
    using zero by blast
  with n have z: "list_auto_paginate (map Inr ?ps) None (Some 0) = Some ?all"
    by simp
  have "items ?all = flattened (length (requests ?all)) ?ps"
    using zero z by blast
  then have a: "flattened 1 ?ps = [''a'', ''b'']" by simp
  have "(1::int) \<noteq> 0" by simp
  then have "items ?fst = take (max 1 (nat 1)) (flattened (length (requests ?fst)) ?ps)"
    using pos p by blast
  then have b: "take (max 1 (nat 1)) (flattened 1 ?ps) = [''a'']" by simp
  have "(- 1::int) \<noteq> 0" by simp
  then have "length (items ?fst) \<le> max 1 (nat (- 1))"
    using neg q by blast
  then have c: "length [''a''] \<le> max 1 (nat (- 1))" by simp
  from z n a b c show ?thesis by simp
qed

text \<open>
  The claim as stated lets only a strictly positive \<open>max_items\<close> limit the run. A
  negative one is true in Python's sense and \<open>yielded >= max_items\<close> holds after the
  first item: over a page of two items, \<open>max_items = -1\<close> yields one item where no cap
  yields both.
\<close>

theorem negative_cap_counterexample:
  "list_auto_paginate [Inr (double_page ''a'' ''b'' 2)] None (Some (- 1))
     = Some \<lparr>items = [''a''], requests = [(50, Some 0)], raised = None\<rparr>
   \<and> list_auto_paginate [Inr (double_page ''a'' ''b'' 2)] None None
     = Some \<lparr>items = [''a'', ''b''], requests = [(50, Some 0)], raised = None\<rparr>"
  by (simp add: paginate_eval)

section \<open>Event dispatch in the realtime client\<close>

lemma run_callbacks_contained:
  assumes "\<forall>cb \<in> set cbs. contained cb args"
  shows "invoked (run_callbacks event cbs args) = length cbs
       \<and> propagated (run_callbacks event cbs args) = None
       \<and> logged (run_callbacks event cbs args) = failures event cbs args"
  using assms
proof (induction cbs)
  case Nil
  show ?case by (simp add: failures_def List.map_filter_simps)
next
  case (Cons cb cbs)
  then have ih: "invoked (run_callbacks event cbs args) = length cbs
       \<and> propagated (run_callbacks event cbs args) = None
       \<and> logged (run_callbacks event cbs args) = failures event cbs args"
    and c: "contained cb args"
    by simp_all
  show ?case
  proof (cases "cb args")
    case None
    with ih show ?thesis by (simp add: failures_def List.map_filter_simps Let_def)
  next
    case (Some e)
    with c have "is_Exception e" by (simp add: contained_def)
    with Some ih show ?thesis by (simp add: failures_def List.map_filter_simps Let_def)
  qed
qed

lemma run_callbacks_escape:
  assumes "cb args = Some e" and "\<not> is_Exception e"
  shows "run_callbacks event (cb # cbs) args = \<lparr>invoked = 1, logged = [], propagated = Some e\<rparr>"
  using assms by simp

lemma emit_contained:
  assumes "\<forall>cbs. map_of ls event = Some cbs \<longrightarrow> (\<forall>cb \<in> set cbs. contained cb args)"
  shows "propagated (emit ls event args) = None"
proof (cases "map_of ls event")
  case None
  then show ?thesis by (simp add: emit_def)
next
  case (Some cbs)
  with assms have "\<forall>cb \<in> set cbs. contained cb args" by simp
  from run_callbacks_contained [OF this] Some show ?thesis by (simp add: emit_def)
qed

lemma handle_message_unknown:
  assumes "\<forall>t. type_of_message kvs = JStr t \<longrightarrow> t \<notin> set known_types"
  shows "handle_message ls (JDict kvs) = \<lparr>invoked = 0, logged = [], propagated = None\<rparr>"
  using assms by (auto simp: handle_message_def type_of_message_def split: option.splits json.splits)

lemma handle_message_contained:
  assumes "\<forall>event cbs. map_of ls event = Some cbs \<longrightarrow> (\<forall>cb \<in> set cbs. \<forall>args. contained cb args)"
  shows "propagated (handle_message ls (JDict kvs)) = None"
proof -
  have "propagated (emit ls t args) = None" for t args
    using assms by (intro emit_contained) blast
  then show ?thesis
    by (auto simp: handle_message_def split: option.splits json.splits)
qed

lemma receive_loop_goes_on:
  assumes "\<forall>event cbs. map_of ls event = Some cbs \<longrightarrow> (\<forall>cb \<in> set cbs. \<forall>args. contained cb args)"
    and "\<forall>ev \<in> set evs. quiet_turn ev"
  shows "state (receive_loop ls evs) = Running \<and> turns (receive_loop ls evs) = length evs"
  using assms(2)
proof (induction evs)
  case Nil
  show ?case by simp
next
  case (Cons ev evs)
  then have ih: "state (receive_loop ls evs) = Running \<and> turns (receive_loop ls evs) = length evs"
    and q: "quiet_turn ev"
    by simp_all
  from q show ?case
  proof (cases ev rule: quiet_turn.cases)
    case 1
    with ih show ?thesis by (simp add: Let_def)
  next
    case (2 kvs)
    with ih handle_message_contained [OF assms(1), of kvs] show ?thesis
      by (simp add: Let_def)
  qed simp_all
qed

lemmas events_eval =
  handle_message_def emit_def known_types_def failing_listeners_def exiting_listeners_def
  update_message_def unknown_message_def failures_def List.map_filter_simps

text \<open>
  Claim C9, as the code has it. A message that is a JSON object whose \<open>type\<close> is not one
  of the six known names is dropped: no handler is called and nothing is raised. In an
  emission, as long as every handler of the event returns or raises something that
  derives from \<open>Exception\<close>, every handler is called, each failure is logged and nothing
  leaves \<open>_emit\<close>; with such handlers on every event the receive loop is still running
  after any number of turns that time out or deliver a JSON object. A handler that raises
  something outside \<open>Exception\<close> (\<open>SystemExit\<close>, \<open>KeyboardInterrupt\<close>) is not caught: the
  handlers after it are not called and the exception leaves \<open>_emit\<close>.
\<close>

theorem event_isolation:
  "((\<forall>t. type_of_message kvs = JStr t \<longrightarrow> t \<notin> set known_types)
      \<longrightarrow> handle_message ls (JDict kvs) = \<lparr>invoked = 0, logged = [], propagated = None\<rparr>)
   \<and> ((\<forall>cb \<in> set cbs. contained cb args)
      \<longrightarrow> invoked (run_callbacks event cbs args) = length cbs
        \<and> propagated (run_callbacks event cbs args) = None
        \<and> logged (run_callbacks event cbs args) = failures event cbs args)
   \<and> (map_of ls event = Some cbs \<and> (\<forall>cb \<in> set cbs. contained cb args)
      \<longrightarrow> invoked (emit ls event args) = length cbs
        \<and> propagated (emit ls event args) = None
        \<and> logged (emit ls event args) = failures event cbs args)
   \<and> ((\<forall>ev hs. map_of ls ev = Some hs \<longrightarrow> (\<forall>cb \<in> set hs. \<forall>xs. contained cb xs))
        \<and> (\<forall>ev \<in> set evs. quiet_turn ev)
      \<longrightarrow> state (receive_loop ls evs) = Running \<and> turns (receive_loop ls evs) = length evs)
   \<and> (cb args = Some e \<and> \<not> is_Exception e
      \<longrightarrow> run_callbacks event (cb # cbs) args
          = \<lparr>invoked = 1, logged = [], propagated = Some e\<rparr>)"
proof -
  have dropped: "(\<forall>t. type_of_message kvs = JStr t \<longrightarrow> t \<notin> set known_types)
      \<longrightarrow> handle_message ls (JDict kvs) = \<lparr>invoked = 0, logged = [], propagated = None\<rparr>"
    using handle_message_unknown by blast
  have isolated: "(\<forall>cb \<in> set cbs. contained cb args)
      \<longrightarrow> invoked (run_callbacks event cbs args) = length cbs
        \<and> propagated (run_callbacks event cbs args) = None
        \<and> logged (run_callbacks event cbs args) = failures event cbs args"
    using run_callbacks_contained by blast
  have emitted: "map_of ls event = Some cbs \<and> (\<forall>cb \<in> set cbs. contained cb args)
      \<longrightarrow> invoked (emit ls event args) = length cbs
        \<and> propagated (emit ls event args) = None
        \<and> logged (emit ls event args) = failures event cbs args"
  proof
    assume a: "map_of ls event = Some cbs \<and> (\<forall>cb \<in> set cbs. contained cb args)"
    then have "emit ls event args = run_callbacks event cbs args"
      by (simp add: emit_def)
    with a run_callbacks_contained [of cbs args event]
    show "invoked (emit ls event args) = length cbs
        \<and> propagated (emit ls event args) = None
        \<and> logged (emit ls event args) = failures event cbs args"
      by simp
  qed
  have loop: "(\<forall>ev hs. map_of ls ev = Some hs \<longrightarrow> (\<forall>cb \<in> set hs. \<forall>xs. contained cb xs))
        \<and> (\<forall>ev \<in> set evs. quiet_turn ev)
      \<longrightarrow> state (receive_loop ls evs) = Running \<and> turns (receive_loop ls evs) = length evs"
    using receive_loop_goes_on by blast
  have escapes: "cb args = Some e \<and> \<not> is_Exception e
      \<longrightarrow> run_callbacks event (cb # cbs) args
          = \<lparr>invoked = 1, logged = [], propagated = Some e\<rparr>"
    using run_callbacks_escape by blast
  from dropped isolated emitted loop escapes show ?thesis by blast
qed

theorem event_isolation_witness:
  "handle_message failing_listeners unknown_message
     = \<lparr>invoked = 0, logged = [], propagated = None\<rparr>
   \<and> invoked (emit failing_listeners ''market_update'' [AJson update_message]) = 2
   \<and> propagated (emit failing_listeners ''market_update'' [AJson update_message]) = None
   \<and> logged (emit failing_listeners ''market_update'' [AJson update_message])
       = [(''market_update'', ValueError)]
   \<and> state (receive_loop failing_listeners
        [RecvFrame (Some update_message), RecvFrame (Some unknown_message), RecvTimeout,
         RecvFrame (Some update_message)]) = Running
   \<and> turns (receive_loop failing_listeners
        [RecvFrame (Some update_message), RecvFrame (Some unknown_message), RecvTimeout,
         RecvFrame (Some update_message)]) = 4
   \<and> run_callbacks ''market_update''
        [\<lambda>args. Some SystemExit, \<lambda>args. Some ValueError, \<lambda>args. None] [AJson update_message]
       = \<lparr>invoked = 1, logged = [], propagated = Some SystemExit\<rparr>"
proof -
  let ?cbs = "[\<lambda>args. Some ValueError, \<lambda>args. None] :: callback list"
  let ?evs = "[RecvFrame (Some update_message), RecvFrame (Some unknown_message), RecvTimeout,
         RecvFrame (Some update_message)]"
  note inst = event_isolation [where kvs = "[(''type'', JStr ''heartbeat'')]"
      and ls = failing_listeners and cbs = ?cbs and args = "[AJson update_message]"
      and event = "''market_update''" and evs = ?evs
      and cb = "\<lambda>args. Some SystemExit" and e = SystemExit]
  have h1: "\<forall>t. type_of_message [(''type'', JStr ''heartbeat'')] = JStr t \<longrightarrow> t \<notin> set known_types"
    by (simp add: type_of_message_def known_types_def)
  have h2: "\<forall>cb \<in> set ?cbs. contained cb [AJson update_message]"
    by (simp add: contained_def)
  have h3: "map_of failing_listeners ''market_update'' = Some ?cbs"
    by (simp add: failing_listeners_def)
  have h4: "\<forall>ev hs. map_of failing_listeners ev = Some hs
      \<longrightarrow> (\<forall>cb \<in> set hs. \<forall>xs. contained cb xs)"
    by (auto simp: failing_listeners_def contained_def split: if_splits)
  have h5: "\<forall>ev \<in> set ?evs. quiet_turn ev"
    by (simp add: update_message_def unknown_message_def)
  have h6: "(\<lambda>args. Some SystemExit) [AJson update_message] = Some SystemExit
      \<and> \<not> is_Exception SystemExit"
    by simp
  have a: "handle_message failing_listeners (JDict [(''type'', JStr ''heartbeat'')])
      = \<lparr>invoked = 0, logged = [], propagated = None\<rparr>"
    using inst h1 by blast
  have b: "invoked (emit failing_listeners ''market_update'' [AJson update_message]) = length ?cbs
        \<and> propagated (emit failing_listeners ''market_update'' [AJson update_message]) = None
        \<and> logged (emit failing_listeners ''market_update'' [AJson update_message])
            = failures ''market_update'' ?cbs [AJson update_message]"
    using inst h2 h3 by blast
  have c: "state (receive_loop failing_listeners ?evs) = Running
      \<and> turns (receive_loop failing_listeners ?evs) = length ?evs"
    using inst h4 h5 by blast
  have d: "run_callbacks ''market_update'' ((\<lambda>args. Some SystemExit) # ?cbs) [AJson update_message]
      = \<lparr>invoked = 1, logged = [], propagated = Some SystemExit\<rparr>"
    using inst h6 by blast
  from a b c d show ?thesis
    by (simp add: unknown_message_def failures_def List.map_filter_simps)
qed

text \<open>
  The claim as stated has every raising handler caught. A handler that calls
  \<open>sys.exit()\<close> raises \<open>SystemExit\<close>, which \<open>except Exception\<close> lets through: the second
  handler of the event is not called, the exception leaves \<open>_emit\<close> and
  \<open>_handle_message\<close>, and the receive loop ends with it in its first turn.
\<close>

theorem exiting_handler_counterexample:
  "handle_message exiting_listeners update_message
     = \<lparr>invoked = 1, logged = [], propagated = Some SystemExit\<rparr>
   \<and> state (receive_loop exiting_listeners
        [RecvFrame (Some update_message), RecvFrame (Some update_message)]) = Escaped SystemExit
   \<and> turns (receive_loop exiting_listeners
        [RecvFrame (Some update_message), RecvFrame (Some update_message)]) = 1"
  by (simp add: events_eval)

text \<open>
  A frame that is JSON but not an object has no \<open>type\<close> to look up:
  \<open>message.get\<close> raises \<open>AttributeError\<close>, the loop emits \<open>error\<close> and breaks.
\<close>

lemma non_object_frame:
  "state (receive_loop failing_listeners [RecvFrame (Some (JList [])), RecvFrame (Some update_message)])
     = Left
   \<and> turns (receive_loop failing_listeners
        [RecvFrame (Some (JList [])), RecvFrame (Some update_message)]) = 1"
  by (simp add: events_eval)

section \<open>Reconnection and subscription replay\<close>


















section \<open>Key-casing normalizer\<close>






















end
